theory Spec2Isabelle
  imports Main
begin

unbundle bit_operations_syntax

section \<open>The file-locking core of \<open>library/locker.py\<close>\<close>

subsection \<open>Flags and platform constants\<close>

text \<open>
  \<open>LOCK\<close> is an \<open>IntFlag\<close>; a flag set is a Python integer. The \<open>LK_*\<close> values are
  those of the C runtime's \<open>sys/locking.h\<close> as exported by \<open>msvcrt\<close>,
  \<open>LOCKFILE_FAIL_IMMEDIATELY\<close> is the value of \<open>win32con\<close>, and the two error
  codes are those of \<open>winerror\<close> (the source quotes both numbers in its comments).
\<close>

definition LK_UNLCK :: int where "LK_UNLCK = 0"
definition LK_LOCK :: int where "LK_LOCK = 1"
definition LK_NBLCK :: int where "LK_NBLCK = 2"
definition LK_RLCK :: int where "LK_RLCK = 3"
definition LK_NBRLCK :: int where "LK_NBRLCK = 4"
definition LOCKFILE_FAIL_IMMEDIATELY :: int where "LOCKFILE_FAIL_IMMEDIATELY = 1"
definition ERROR_LOCK_VIOLATION :: int where "ERROR_LOCK_VIOLATION = 33"
definition ERROR_NOT_LOCKED :: int where "ERROR_NOT_LOCKED = 158"

definition LOCK_EX :: int where "LOCK_EX = 0x1"
definition LOCK_SH :: int where "LOCK_SH = 0x2"
definition LOCK_NB :: int where "LOCK_NB = 0x4"
definition LOCK_UN :: int where "LOCK_UN = LK_UNLCK"

subsection \<open>Handles, exceptions and the operating system\<close>

text \<open>
  A handle is the open file object the caller lends to the lock engine: its \<open>mode\<close>
  attribute and its descriptor. Its cursor is mutable and lives in the \<open>world\<close> below.
\<close>

record handle =
  mode :: string
  fileno :: int

text \<open>
  Modelled from the spec: \<open>LockException\<close> of \<open>library/exceptions.py\<close>, which is not
  among the sources. The spec has it as the error \<open>LockFailed(reason, handle)\<close>, a type
  of its own that carries the message of the underlying error and the handle; so it is
  no \<open>IOError\<close>, and an \<open>except IOError\<close> clause lets it through.
  \<open>LockException strerror h\<close> is
  \<open>LockException(LockException.LOCK_FAILED, strerror, handle=h)\<close>, the only way the
  source builds one. The other exceptions are those the source names:
  \<open>IOError errno strerror\<close>; \<open>pywin_error winerror funcname strerror\<close>, which is
  \<open>pywintypes.error\<close>; \<open>InvalidToken\<close> of \<open>cryptography.fernet\<close>; and
  \<open>OtherError\<close> for any other exception.
\<close>

datatype exn =
    IOError int string
  | pywin_error int string string
  | LockException string handle
  | InvalidToken
  | OtherError string

datatype os_handle = OsHandle int

text \<open>The zero-initialised \<open>OVERLAPPED()\<close> structure: \<open>Offset\<close> and \<open>OffsetHigh\<close>.\<close>

datatype overlapped = OVERLAPPED int int

text \<open>
  The primitives the engine calls, as they appear in the call trace.
  \<open>CallLocking pos fd m n\<close> is \<open>msvcrt.locking(fd, m, n)\<close> issued while the file
  offset of the descriptor is \<open>pos\<close>: the C runtime locks \<open>n\<close> bytes starting at the
  current offset of the descriptor.
\<close>

datatype call =
    CallTell
  | CallSeek int
  | CallLocking int int int int
  | CallGetOsfhandle int
  | CallLockFileEx os_handle int int int overlapped
  | CallUnlockFileEx os_handle int int overlapped

datatype prim = PTell | PSeek | PLocking | PGetOsfhandle | PLockFileEx | PUnlockFileEx

text \<open>
  The world outside the engine. The handle is a file object as \<open>open\<close> gives it:
  \<open>cursor\<close> is the position the handle reports and sets (\<open>tell\<close>, \<open>seek\<close>). The
  descriptor under it has a file offset of its own, \<open>os_offset\<close>; after a read the handle
  holds the bytes from \<open>buffer_start\<close> up to \<open>os_offset\<close> in its read-ahead buffer, and
  the cursor lies in between. A handle with nothing read ahead (an unbuffered one, or
  one that has just been opened or repositioned) has all three equal.
  For each primitive the world holds the outcomes of its coming calls (\<open>None\<close>: the call
  succeeds, \<open>Some e\<close>: it raises \<open>e\<close>; an exhausted list means success), and it holds
  the trace of the calls made so far, each with its outcome.
\<close>

record world =
  cursor :: int
  buffer_start :: int
  os_offset :: int
  pending :: "prim \<Rightarrow> exn option list"
  trace :: "(call \<times> exn option) list"

text \<open>
  A computation over a state \<open>'s\<close> returns a value or raises, and leaves a state.
  \<open>'a io\<close> is a computation over the world of the handle.
\<close>

type_synonym ('a, 's) prog = "'s \<Rightarrow> (exn + 'a) \<times> 's"

type_synonym 'a io = "('a, world) prog"

definition return_io :: "'a \<Rightarrow> ('a, 's) prog" where
  "return_io x w = (Inr x, w)"

definition raise_io :: "exn \<Rightarrow> ('a, 's) prog" where
  "raise_io e w = (Inl e, w)"

definition bind_io :: "('a, 's) prog \<Rightarrow> ('a \<Rightarrow> ('b, 's) prog) \<Rightarrow> ('b, 's) prog" where
  "bind_io m f w = (case m w of (Inl e, w') \<Rightarrow> (Inl e, w') | (Inr x, w') \<Rightarrow> f x w')"

text \<open>\<open>try: m except ... as exc: h exc\<close>; a handler re-raises what its clause does not match.\<close>

definition try_except :: "('a, 's) prog \<Rightarrow> (exn \<Rightarrow> ('a, 's) prog) \<Rightarrow> ('a, 's) prog" where
  "try_except m h w = (case m w of (Inl e, w') \<Rightarrow> h e w' | (Inr x, w') \<Rightarrow> (Inr x, w'))"

text \<open>
  \<open>try: m finally: fin\<close>: \<open>fin\<close> runs however \<open>m\<close> ends; an exception raised by
  \<open>fin\<close> replaces the outcome of \<open>m\<close>.
\<close>

definition try_finally :: "('a, 's) prog \<Rightarrow> (unit, 's) prog \<Rightarrow> ('a, 's) prog" where
  "try_finally m fin w =
     (case m w of (r, w') \<Rightarrow>
        (case fin w' of (Inl e, w'') \<Rightarrow> (Inl e, w'') | (Inr _, w'') \<Rightarrow> (r, w'')))"

text \<open>\<open>outcome_at p k w\<close>: the outcome of the \<open>k\<close>-th coming call (from 0) of \<open>p\<close>.\<close>

definition outcome_at :: "prim \<Rightarrow> nat \<Rightarrow> world \<Rightarrow> exn option" where
  "outcome_at p k w = (case drop k (pending w p) of [] \<Rightarrow> None | x # _ \<Rightarrow> x)"

definition outcome :: "prim \<Rightarrow> world \<Rightarrow> exn option" where
  "outcome p w = outcome_at p 0 w"

definition advance :: "prim \<Rightarrow> world \<Rightarrow> world" where
  "advance p w = w\<lparr>pending := (pending w)(p := tl (pending w p))\<rparr>"

text \<open>
  What a successful \<open>handle.seek(n)\<close> does. A target inside a read-ahead buffer that
  still has bytes to give moves the position of the handle only: the descriptor stays
  where the read-ahead left it. Any other target empties the buffer and moves the
  descriptor.
\<close>

definition moved :: "int \<Rightarrow> world \<Rightarrow> world" where
  "moved n w =
     (if cursor w < os_offset w \<and> buffer_start w \<le> n \<and> n \<le> os_offset w
      then w\<lparr>cursor := n\<rparr>
      else w\<lparr>cursor := n, buffer_start := n, os_offset := n\<rparr>)"

definition logged :: "call \<Rightarrow> exn option \<Rightarrow> world \<Rightarrow> world" where
  "logged c r w = w\<lparr>trace := trace w @ [(c, r)]\<rparr>"

text \<open>
  One call of a primitive: take its outcome, apply the effect of the primitive when it
  succeeds, and record the call. A call that raises has no effect on the cursor.
\<close>

definition perform :: "prim \<Rightarrow> call \<Rightarrow> (world \<Rightarrow> world) \<Rightarrow> unit io" where
  "perform p c eff w =
     (case outcome p w of
        None \<Rightarrow> (Inr (), logged c None (eff (advance p w)))
      | Some e \<Rightarrow> (Inl e, logged c (Some e) (advance p w)))"

text \<open>\<open>handle.tell()\<close>, \<open>handle.seek(n)\<close> and \<open>msvcrt.locking(fd, m, n)\<close>.\<close>

definition tell :: "int io" where
  "tell w = bind_io (perform PTell CallTell id) (\<lambda>_. return_io (cursor w)) w"

definition seek :: "int \<Rightarrow> unit io" where
  "seek n = perform PSeek (CallSeek n) (moved n)"

definition locking :: "int \<Rightarrow> int \<Rightarrow> int \<Rightarrow> unit io" where
  "locking fd m n w = perform PLocking (CallLocking (os_offset w) fd m n) id w"

text \<open>\<open>_get_osfhandle(handle.fileno())\<close>.\<close>

definition get_osfhandle :: "int \<Rightarrow> os_handle io" where
  "get_osfhandle fd =
     bind_io (perform PGetOsfhandle (CallGetOsfhandle fd) id) (\<lambda>_. return_io (OsHandle fd))"

definition LockFileEx :: "os_handle \<Rightarrow> int \<Rightarrow> int \<Rightarrow> int \<Rightarrow> overlapped \<Rightarrow> unit io" where
  "LockFileEx fh m lo hi ov = perform PLockFileEx (CallLockFileEx fh m lo hi ov) id"

definition UnlockFileEx :: "os_handle \<Rightarrow> int \<Rightarrow> int \<Rightarrow> overlapped \<Rightarrow> unit io" where
  "UnlockFileEx fh lo hi ov = perform PUnlockFileEx (CallUnlockFileEx fh lo hi ov) id"

subsection \<open>\<open>FileLock\<close>\<close>

text \<open>
  \<open>FileLock.__init__\<close>; \<open>major\<close> is \<open>version_info.major\<close> of the running
  interpreter, which \<open>lock\<close> reads again.
\<close>

record FileLock =
  overlapped_of :: overlapped
  lock_length :: int

definition FileLock_init :: "int \<Rightarrow> FileLock" where
  "FileLock_init major =
     \<lparr>overlapped_of = OVERLAPPED 0 0,
      lock_length = (if major = 2 then - 1 else 2 ^ 31 - 1)\<rparr>"

text \<open>\<open>except IOError as exc_value: raise LockException(LOCK_FAILED, exc_value.strerror, handle=handle)\<close>\<close>

definition except_IOError_lock_failed :: "handle \<Rightarrow> exn \<Rightarrow> 'a io" where
  "except_IOError_lock_failed h exc =
     (case exc of
        IOError errno strerror \<Rightarrow> raise_io (LockException strerror h)
      | _ \<Rightarrow> raise_io exc)"

text \<open>
  The \<open>except pywin_error as exc_value\<close> clause of the shared branch: a lock
  violation becomes a \<open>LockException\<close>, anything else is raised again as it is.
\<close>

definition except_lock_violation :: "handle \<Rightarrow> exn \<Rightarrow> 'a io" where
  "except_lock_violation h exc_value =
     (case exc_value of
        pywin_error winerror funcname strerror \<Rightarrow>
          if winerror = ERROR_LOCK_VIOLATION
          then raise_io (LockException strerror h)
          else raise_io exc_value
      | _ \<Rightarrow> raise_io exc_value)"

definition lock :: "int \<Rightarrow> FileLock \<Rightarrow> handle \<Rightarrow> int \<Rightarrow> unit io" where
  "lock major self h flags =
     (if flags AND LOCK_SH \<noteq> 0 then
        (let m = (if major = 2
                  then (if flags AND LOCK_NB \<noteq> 0 then LOCKFILE_FAIL_IMMEDIATELY else 0)
                  else (if flags AND LOCK_NB \<noteq> 0 then LK_NBRLCK else LK_RLCK))
         in bind_io (get_osfhandle (fileno h)) (\<lambda>file_handle.
              try_except
                (LockFileEx file_handle m 0 (- 0x10000) (overlapped_of self))
                (except_lock_violation h)))
      else
        (let m = (if flags AND LOCK_NB \<noteq> 0 then LK_NBLCK else LK_LOCK)
         in try_except
              (bind_io tell (\<lambda>save_position.
                 bind_io (if save_position \<noteq> 0 then seek 0 else return_io ()) (\<lambda>_.
                   try_finally
                     (try_except
                        (locking (fileno h) m (lock_length self))
                        (except_IOError_lock_failed h))
                     (if save_position \<noteq> 0 then seek save_position else return_io ()))))
              (except_IOError_lock_failed h)))"

text \<open>
  The \<open>except pywin_error as exc\<close> clause around \<open>UnlockFileEx\<close>:
  \<open>ERROR_NOT_LOCKED\<close> is passed over in silence, any other code becomes a
  \<open>LockException\<close>; an exception that is not a \<open>pywintypes.error\<close> is not caught.
\<close>

definition except_not_locked :: "handle \<Rightarrow> exn \<Rightarrow> unit io" where
  "except_not_locked h exc =
     (case exc of
        pywin_error winerror funcname strerror \<Rightarrow>
          if winerror = ERROR_NOT_LOCKED
          then return_io ()
          else raise_io (LockException strerror h)
      | _ \<Rightarrow> raise_io exc)"

text \<open>
  The \<open>except IOError as exc\<close> clause around the \<open>locking\<close> call of \<open>unlock\<close>:
  on \<open>'Permission denied'\<close> the range is unlocked through \<open>UnlockFileEx\<close>.
\<close>

definition except_IOError_unlock :: "FileLock \<Rightarrow> handle \<Rightarrow> exn \<Rightarrow> unit io" where
  "except_IOError_unlock self h exc =
     (case exc of
        IOError errno strerror \<Rightarrow>
          if strerror = ''Permission denied''
          then bind_io (get_osfhandle (fileno h)) (\<lambda>file_handle.
                 try_except
                   (UnlockFileEx file_handle 0 (- 0x10000) (overlapped_of self))
                   (except_not_locked h))
          else raise_io (LockException strerror h)
      | _ \<Rightarrow> raise_io exc)"

definition unlock :: "FileLock \<Rightarrow> handle \<Rightarrow> unit io" where
  "unlock self h =
     try_except
       (bind_io tell (\<lambda>save_position.
          bind_io (if save_position \<noteq> 0 then seek 0 else return_io ()) (\<lambda>_.
            try_finally
              (try_except
                 (locking (fileno h) LOCK_UN (lock_length self))
                 (except_IOError_unlock self h))
              (if save_position \<noteq> 0 then seek save_position else return_io ()))))
       (except_IOError_lock_failed h)"

subsection \<open>Mode resolution\<close>

text \<open>\<open>str.strip(chars)\<close>: drop the characters of \<open>chars\<close> from both ends.\<close>

definition strip :: "string \<Rightarrow> string \<Rightarrow> string" where
  "strip chars s =
     rev (dropWhile (\<lambda>c. c \<in> set chars) (rev (dropWhile (\<lambda>c. c \<in> set chars) s)))"

definition get_mode :: "handle \<Rightarrow> string" where
  "get_mode h = strip ''tb+'' (mode h)"

text \<open>The class attribute \<open>_flags\<close>.\<close>

definition flags_table :: "(string \<times> int) list" where
  "flags_table = [(''w'', LOCK_EX), (''a'', LOCK_EX), (''x'', LOCK_EX), (''r'', LOCK_SH)]"

text \<open>
  \<open>get_flags\<close> returns \<open>self._flags.get(mode)\<close>: \<open>dict.get\<close> gives \<open>None\<close> for a
  missing key. The result is \<open>Inr\<close> of the returned value, \<open>None\<close> being Python's.
\<close>

definition get_flags :: "handle \<Rightarrow> exn + int option" where
  "get_flags h = Inr (map_of flags_table (get_mode h))"

subsection \<open>Observing a run\<close>

text \<open>The calls a computation adds to the trace of the world it starts in.\<close>

definition calls_of :: "'a io \<Rightarrow> world \<Rightarrow> (call \<times> exn option) list" where
  "calls_of m w = drop (length (trace w)) (trace (snd (m w)))"

text \<open>
  The file offset at which \<open>lock\<close> (in its exclusive branch) and \<open>unlock\<close> call
  \<open>locking\<close>: that of the descriptor, after the \<open>seek(0)\<close> they make when the handle
  is not at position 0.
\<close>

definition lock_start :: "world \<Rightarrow> int" where
  "lock_start w = os_offset (if cursor w \<noteq> 0 then moved 0 w else w)"

text \<open>
  What the handlers make of an exception; each handler is the corresponding function
  below, run in an unchanged world.
\<close>

definition wrapped :: "handle \<Rightarrow> exn \<Rightarrow> exn" where
  "wrapped h exc = (case exc of IOError errno strerror \<Rightarrow> LockException strerror h | _ \<Rightarrow> exc)"

definition violation :: "handle \<Rightarrow> exn \<Rightarrow> exn" where
  "violation h exc =
     (case exc of
        pywin_error winerror funcname strerror \<Rightarrow>
          if winerror = ERROR_LOCK_VIOLATION then LockException strerror h else exc
      | _ \<Rightarrow> exc)"

definition not_locked :: "handle \<Rightarrow> exn \<Rightarrow> exn + unit" where
  "not_locked h exc =
     (case exc of
        pywin_error winerror funcname strerror \<Rightarrow>
          if winerror = ERROR_NOT_LOCKED then Inr () else Inl (LockException strerror h)
      | _ \<Rightarrow> Inl exc)"

definition permission_denied :: "exn \<Rightarrow> bool" where
  "permission_denied exc =
     (case exc of IOError errno strerror \<Rightarrow> strerror = ''Permission denied'' | _ \<Rightarrow> False)"

definition is_unlock_call :: "call \<Rightarrow> bool" where
  "is_unlock_call c =
     (case c of
        CallLocking pos fd m n \<Rightarrow> m = LK_UNLCK
      | CallUnlockFileEx fh lo hi ov \<Rightarrow> True
      | _ \<Rightarrow> False)"

text \<open>Concrete handles and worlds on which the operations are run below.\<close>

definition quiet :: "int \<Rightarrow> world" where
  "quiet P = \<lparr>cursor = P, buffer_start = P, os_offset = P, pending = (\<lambda>_. []), trace = []\<rparr>"

definition scripted :: "int \<Rightarrow> (prim \<Rightarrow> exn option list) \<Rightarrow> world" where
  "scripted P f = \<lparr>cursor = P, buffer_start = P, os_offset = P, pending = f, trace = []\<rparr>"

text \<open>
  A handle opened with mode \<open>r+b\<close> on a file of 30 bytes, after \<open>read(5)\<close>: the handle
  is at position 5, it has read the whole file ahead, and the descriptor is at offset 30.
\<close>

definition read_ahead :: world where
  "read_ahead =
     \<lparr>cursor = 5, buffer_start = 0, os_offset = 30, pending = (\<lambda>_. []), trace = []\<rparr>"

definition example_handle :: handle where
  "example_handle = \<lparr>mode = ''r+b'', fileno = 3\<rparr>"

definition seek_fails_on_return :: world where
  "seek_fails_on_return =
     scripted 5 ((\<lambda>_. [])(PSeek := [None, Some (IOError 9 ''Bad file descriptor'')]))"

definition locked_elsewhere :: world where
  "locked_elsewhere =
     scripted 5 ((\<lambda>_. [])(PLocking := [Some (IOError 13 ''Permission denied'')]))"



definition lock_violation :: world where
  "lock_violation =
     scripted 5 ((\<lambda>_. [])
       (PLockFileEx := [Some (pywin_error ERROR_LOCK_VIOLATION ''LockFileEx''
          ''The process cannot access the file because another process has locked a portion of the file.'')]))"

section \<open>The singleton mechanisms of \<open>library/locker.py\<close>\<close>

text \<open>
  A class is known by its name. An object has an identity (its allocation number), a
  class, and the arguments it was constructed with.
\<close>

type_synonym cls = string

datatype 'a obj = Obj nat cls 'a

fun class_of :: "'a obj \<Rightarrow> cls" where
  "class_of (Obj n c args) = c"

text \<open>
  Modelled from the spec: the table \<open>INSTANCES\<close> of \<open>library/constants.py\<close>, which is
  not among the sources. The spec has it as a process-wide mapping from the identity of
  a type to its one instance, created empty at process start, filled on first
  construction and never emptied. The state of the process is this table, the
  \<open>_instance\<close> attribute in each class's own namespace, and the objects constructed so
  far.
\<close>

record 'a runtime =
  INSTANCES :: "cls \<rightharpoonup> 'a obj"
  instance_attr :: "cls \<rightharpoonup> 'a obj"
  heap :: "'a obj list"

definition fresh :: "'a runtime" where
  "fresh = \<lparr>INSTANCES = Map.empty, instance_attr = Map.empty, heap = []\<rparr>"

text \<open>
  \<open>cls(*args, **kwargs)\<close>: \<open>init c args\<close> tells whether the constructor of \<open>c\<close>
  raises on these arguments; when it returns, a new object exists.
\<close>

definition construct :: "(cls \<Rightarrow> 'a \<Rightarrow> exn option) \<Rightarrow> cls \<Rightarrow> 'a \<Rightarrow> ('a obj, 'a runtime) prog" where
  "construct init c args st =
     (case init c args of
        Some e \<Rightarrow> (Inl e, st)
      | None \<Rightarrow> (Inr (Obj (length (heap st)) c args),
                 st\<lparr>heap := heap st @ [Obj (length (heap st)) c args]\<rparr>))"

text \<open>\<open>INSTANCES[cls] = instance\<close> and \<open>INSTANCES[cls]\<close>.\<close>

definition store_instance :: "cls \<Rightarrow> 'a obj \<Rightarrow> (unit, 'a runtime) prog" where
  "store_instance c x st = (Inr (), st\<lparr>INSTANCES := (INSTANCES st)(c \<mapsto> x)\<rparr>)"

definition lookup_instance :: "cls \<Rightarrow> ('a obj, 'a runtime) prog" where
  "lookup_instance c st =
     (case INSTANCES st c of
        None \<Rightarrow> (Inl (OtherError ''KeyError''), st)
      | Some x \<Rightarrow> (Inr x, st))"

text \<open>The \<open>wrapper\<close> that the decorator \<open>singleton(cls)\<close> returns, called with \<open>args\<close>.\<close>

definition singleton :: "(cls \<Rightarrow> 'a \<Rightarrow> exn option) \<Rightarrow> cls \<Rightarrow> 'a \<Rightarrow> ('a obj, 'a runtime) prog" where
  "singleton init c args st =
     bind_io
       (if INSTANCES st c = None
        then bind_io (construct init c args) (\<lambda>instance. store_instance c instance)
        else return_io ())
       (\<lambda>_. lookup_instance c) st"

text \<open>
  Attribute lookup on a class goes along its method resolution order: the class itself,
  then \<open>ancestors c\<close>, the rest of \<open>c.__mro__\<close> (without \<open>object\<close>, which never carries
  the attribute). \<open>hasattr(cls, "_instance")\<close> and the
  read \<open>cls._instance\<close> find the first class on it that carries the attribute; the
  assignment \<open>cls._instance = ...\<close> writes into the namespace of \<open>cls\<close> itself.
\<close>

fun lookup_attr :: "(cls \<rightharpoonup> 'v) \<Rightarrow> cls list \<Rightarrow> 'v option" where
  "lookup_attr attrs [] = None"
| "lookup_attr attrs (c # cs) =
     (case attrs c of Some v \<Rightarrow> Some v | None \<Rightarrow> lookup_attr attrs cs)"

definition mro :: "(cls \<Rightarrow> cls list) \<Rightarrow> cls \<Rightarrow> cls list" where
  "mro ancestors c = c # ancestors c"

definition setattr_instance :: "cls \<Rightarrow> 'a obj \<Rightarrow> (unit, 'a runtime) prog" where
  "setattr_instance c x st = (Inr (), st\<lparr>instance_attr := (instance_attr st)(c \<mapsto> x)\<rparr>)"

definition getattr_instance :: "(cls \<Rightarrow> cls list) \<Rightarrow> cls \<Rightarrow> ('a obj, 'a runtime) prog" where
  "getattr_instance ancestors c st =
     (case lookup_attr (instance_attr st) (mro ancestors c) of
        None \<Rightarrow> (Inl (OtherError ''AttributeError''), st)
      | Some x \<Rightarrow> (Inr x, st))"

text \<open>\<open>MetaSingleton.__call__(cls, *args, **kwargs)\<close>.\<close>

definition MetaSingleton_call ::
  "(cls \<Rightarrow> cls list) \<Rightarrow> (cls \<Rightarrow> 'a \<Rightarrow> exn option) \<Rightarrow> cls \<Rightarrow> 'a \<Rightarrow> ('a obj, 'a runtime) prog" where
  "MetaSingleton_call ancestors init c args st =
     bind_io
       (if lookup_attr (instance_attr st) (mro ancestors c) = None
        then bind_io (construct init c args) (\<lambda>instance. setattr_instance c instance)
        else return_io ())
       (\<lambda>_. getattr_instance ancestors c) st"

text \<open>
  A sequence of construction calls, one after the other; each call is listed with what it
  returned or raised. A call that raises does not end the process.
\<close>

fun run_calls ::
  "(cls \<Rightarrow> 'a \<Rightarrow> ('a obj, 's) prog) \<Rightarrow> (cls \<times> 'a) list \<Rightarrow> 's \<Rightarrow> (cls \<times> (exn + 'a obj)) list \<times> 's" where
  "run_calls f [] st = ([], st)"
| "run_calls f ((c, args) # rest) st =
     (case f c args st of (r, st') \<Rightarrow>
        (case run_calls f rest st' of (rs, st'') \<Rightarrow> ((c, r) # rs, st'')))"

definition instances_of :: "cls \<Rightarrow> 'a runtime \<Rightarrow> 'a obj list" where
  "instances_of c st = filter (\<lambda>x. class_of x = c) (heap st)"






text \<open>The classes \<open>C\<close>, \<open>X\<close> and \<open>B(X, C)\<close>, and \<open>A\<close> with its subclass \<open>A1(A)\<close>; no constructor raises.\<close>

definition example_ancestors :: "cls \<Rightarrow> cls list" where
  "example_ancestors c = (if c = ''B'' then [''X'', ''C''] else if c = ''A1'' then [''A''] else [])"

definition no_raise :: "cls \<Rightarrow> unit \<Rightarrow> exn option" where
  "no_raise c args = None"


text \<open>
  Invariant of a process that has only gone through one of the two mechanisms: the
  objects of a class are exactly the instance its table entry holds, if any.
\<close>

definition one_each :: "('a runtime \<Rightarrow> cls \<rightharpoonup> 'a obj) \<Rightarrow> 'a runtime \<Rightarrow> bool" where
  "one_each table st =
     (\<forall>c. instances_of c st = (case table st c of None \<Rightarrow> [] | Some x \<Rightarrow> [x]))"



section \<open>The encryption wrapper of \<open>library/encryption.py\<close>\<close>



















section \<open>Properties of the locking core\<close>

subsection \<open>Symbolic execution of the primitives\<close>

lemmas lock_consts =
  LK_UNLCK_def LK_LOCK_def LK_NBLCK_def LK_RLCK_def LK_NBRLCK_def
  LOCKFILE_FAIL_IMMEDIATELY_def ERROR_LOCK_VIOLATION_def ERROR_NOT_LOCKED_def
  LOCK_EX_def LOCK_SH_def LOCK_NB_def LOCK_UN_def

lemma cursor_advance [simp]: "cursor (advance p w) = cursor w"
  by (simp add: advance_def)
lemma cursor_logged [simp]: "cursor (logged c r w) = cursor w"
  by (simp add: logged_def)
lemma cursor_moved [simp]: "cursor (moved n w) = n"
  by (simp add: moved_def)
lemma os_offset_advance [simp]: "os_offset (advance p w) = os_offset w"
  by (simp add: advance_def)
lemma os_offset_logged [simp]: "os_offset (logged c r w) = os_offset w"
  by (simp add: logged_def)
lemma buffer_start_advance [simp]: "buffer_start (advance p w) = buffer_start w"
  by (simp add: advance_def)
lemma buffer_start_logged [simp]: "buffer_start (logged c r w) = buffer_start w"
  by (simp add: logged_def)
lemma os_offset_moved [simp]:
  "os_offset (moved n w) =
     (if cursor w < os_offset w \<and> buffer_start w \<le> n \<and> n \<le> os_offset w
      then os_offset w else n)"
  by (simp add: moved_def)
lemma trace_advance [simp]: "trace (advance p w) = trace w"
  by (simp add: advance_def)
lemma trace_logged [simp]: "trace (logged c r w) = trace w @ [(c, r)]"
  by (simp add: logged_def)
lemma trace_moved [simp]: "trace (moved n w) = trace w"
  by (simp add: moved_def)
lemma outcome_at_logged [simp]: "outcome_at p k (logged c r w) = outcome_at p k w"
  by (simp add: logged_def outcome_at_def)
lemma outcome_at_moved [simp]: "outcome_at p k (moved n w) = outcome_at p k w"
  by (simp add: moved_def outcome_at_def)
lemma outcome_at_advance [simp]:
  "outcome_at p k (advance q w) = (if p = q then outcome_at p (Suc k) w else outcome_at p k w)"
  by (simp add: advance_def outcome_at_def drop_Suc)

lemma except_IOError_lock_failed_run [simp]:
  "except_IOError_lock_failed h exc w = (Inl (wrapped h exc), w)"
  by (simp add: except_IOError_lock_failed_def wrapped_def raise_io_def split: exn.split)

lemma except_lock_violation_run [simp]:
  "except_lock_violation h exc w = (Inl (violation h exc), w)"
  by (simp add: except_lock_violation_def violation_def raise_io_def split: exn.split)

lemma except_not_locked_run [simp]:
  "except_not_locked h exc w = (not_locked h exc, w)"
  by (simp add: except_not_locked_def not_locked_def raise_io_def return_io_def split: exn.split)

lemma except_IOError_unlock_run:
  "except_IOError_unlock self h exc w =
     (if permission_denied exc
      then bind_io (get_osfhandle (fileno h)) (\<lambda>file_handle.
             try_except
               (UnlockFileEx file_handle 0 (- 0x10000) (overlapped_of self))
               (except_not_locked h)) w
      else (Inl (wrapped h exc), w))"
  by (simp add: except_IOError_unlock_def permission_denied_def wrapped_def raise_io_def
      split: exn.split)

lemmas io_defs =
  return_io_def raise_io_def bind_io_def try_except_def try_finally_def
  perform_def tell_def seek_def locking_def get_osfhandle_def
  LockFileEx_def UnlockFileEx_def outcome_def

lemmas world_defs =
  outcome_at_def advance_def logged_def moved_def quiet_def scripted_def example_handle_def
  FileLock_init_def calls_of_def read_ahead_def

lemmas handler_defs =
  except_IOError_lock_failed_def except_lock_violation_def except_not_locked_def
  except_IOError_unlock_def

lemma never_fails: "pending w p = [] \<Longrightarrow> outcome_at p k w = None"
  by (simp add: outcome_at_def)

subsection \<open>Mode resolution\<close>

text \<open>
  Claim C1, as the code has it. A handle whose resolved mode is \<open>w\<close>, \<open>a\<close> or
  \<open>x\<close> gets \<open>LOCK.EX\<close> and one whose resolved mode is \<open>r\<close> gets \<open>LOCK.SH\<close>;
  for every other resolved mode \<open>get_flags\<close> returns \<open>None\<close>: it raises nothing.
\<close>

theorem get_flags_by_mode:
  "get_flags h =
     (if get_mode h = ''w'' \<or> get_mode h = ''a'' \<or> get_mode h = ''x'' then Inr (Some LOCK_EX)
      else if get_mode h = ''r'' then Inr (Some LOCK_SH)
      else Inr None)"
  by (simp add: get_flags_def flags_table_def)

text \<open>
  The theorem at the handle of a file opened with mode \<open>r+b\<close>.
\<close>

theorem get_flags_by_mode_witness:
  "get_mode example_handle = ''r'' \<and> get_flags example_handle = Inr (Some LOCK_SH)"
proof -
  have m: "get_mode example_handle = ''r''"
    by (simp add: get_mode_def strip_def example_handle_def)
  show ?thesis using get_flags_by_mode [of example_handle] m by simp
qed

text \<open>
  Claim C1 as stated fails: for the mode \<open>rU\<close>, which resolves to none of the four
  keys, \<open>get_flags\<close> returns the value \<open>None\<close> where the claim has it fail with
  an unsupported-mode error.
\<close>

theorem get_flags_other_mode_counterexample:
  "get_mode \<lparr>mode = ''rU'', fileno = 3\<rparr> = ''rU'' \<and>
   get_flags \<lparr>mode = ''rU'', fileno = 3\<rparr> = Inr None"
  by (simp add: get_flags_def get_mode_def strip_def flags_table_def)

subsection \<open>The branch taken by \<open>lock\<close>\<close>

text \<open>
  Claim C2, as the code has it. \<open>lock\<close> tests the \<open>SH\<close> bit first, so with both
  the \<open>EX\<close> and the \<open>SH\<close> bit set the shared branch runs: the calls made are
  \<open>_get_osfhandle\<close> and, when that returns, \<open>LockFileEx\<close> over the sentinel range;
  \<open>tell\<close>, \<open>seek\<close> and \<open>locking\<close> are not called and the cursor stays where it is.
\<close>

theorem lock_both_bits_shared_branch:
  assumes "flags AND LOCK_EX \<noteq> 0" and "flags AND LOCK_SH \<noteq> 0"
  shows "calls_of (lock major self h flags) w =
           (CallGetOsfhandle (fileno h), outcome PGetOsfhandle w) #
           (if outcome PGetOsfhandle w = None
            then [(CallLockFileEx (OsHandle (fileno h))
                     (if major = 2
                      then (if flags AND LOCK_NB \<noteq> 0 then LOCKFILE_FAIL_IMMEDIATELY else 0)
                      else (if flags AND LOCK_NB \<noteq> 0 then LK_NBRLCK else LK_RLCK))
                     0 (- 0x10000) (overlapped_of self),
                   outcome PLockFileEx w)]
            else [])
         \<and> cursor (snd (lock major self h flags w)) = cursor w"
  using assms(2) unfolding lock_def calls_of_def io_defs
  by (simp split: option.split add: Let_def)

text \<open>
  The theorem at \<open>flags = 3\<close>, that is \<open>LOCK.EX | LOCK.SH\<close>, under Python 3.
\<close>

theorem lock_both_bits_shared_branch_witness:
  "calls_of (lock 3 (FileLock_init 3) example_handle 3) (quiet 5) =
     [(CallGetOsfhandle 3, None),
      (CallLockFileEx (OsHandle 3) 3 0 (- 0x10000) (OVERLAPPED 0 0), None)]
   \<and> cursor (snd (lock 3 (FileLock_init 3) example_handle 3 (quiet 5))) = 5"
proof -
  have a: "(3::int) AND LOCK_EX \<noteq> 0" by (simp add: lock_consts)
  have b: "(3::int) AND LOCK_SH \<noteq> 0" by (simp add: lock_consts)
  show ?thesis
    using lock_both_bits_shared_branch [OF a b, of 3 "FileLock_init 3" example_handle "quiet 5"]
    by (simp add: outcome_def outcome_at_def quiet_def example_handle_def FileLock_init_def lock_consts)
qed

text \<open>
  Claim C2 as stated fails: with both bits set and nothing failing, the calls made are
  those of the shared branch; the whole-file \<open>locking\<close> call of the exclusive branch
  is not among them.
\<close>

theorem lock_both_bits_counterexample:
  "(LOCK_EX OR LOCK_SH) AND LOCK_EX \<noteq> 0 \<and> (LOCK_EX OR LOCK_SH) AND LOCK_SH \<noteq> 0 \<and>
   calls_of (lock 3 (FileLock_init 3) example_handle (LOCK_EX OR LOCK_SH)) (quiet 5) =
     [(CallGetOsfhandle 3, None),
      (CallLockFileEx (OsHandle 3) LK_RLCK 0 (- 0x10000) (OVERLAPPED 0 0), None)]"
  by (simp add: lock_def io_defs world_defs handler_defs lock_consts)

subsection \<open>The cursor\<close>

text \<open>
  Claim C3, as the code has it. Let \<open>P\<close> be the cursor when \<open>lock\<close> or \<open>unlock\<close>
  is called. Whatever the primitives do, and however the call ends, the cursor is \<open>P\<close>
  again afterwards, unless the \<open>seek(P)\<close> of the \<open>finally\<close> clause itself raised.
\<close>

theorem cursor_restored_unless_seek_back_fails:
  "((\<forall>e. (CallSeek (cursor w), Some e) \<notin> set (calls_of (lock major self h flags) w))
      \<longrightarrow> cursor (snd (lock major self h flags w)) = cursor w)
   \<and> ((\<forall>e. (CallSeek (cursor w), Some e) \<notin> set (calls_of (unlock self h) w))
      \<longrightarrow> cursor (snd (unlock self h w)) = cursor w)"
proof
  show "(\<forall>e. (CallSeek (cursor w), Some e) \<notin> set (calls_of (lock major self h flags) w))
      \<longrightarrow> cursor (snd (lock major self h flags w)) = cursor w"
    unfolding lock_def calls_of_def io_defs
    by (simp split: option.split add: Let_def)
  show "(\<forall>e. (CallSeek (cursor w), Some e) \<notin> set (calls_of (unlock self h) w))
      \<longrightarrow> cursor (snd (unlock self h w)) = cursor w"
    unfolding unlock_def calls_of_def io_defs except_IOError_unlock_run
    by (simp split: option.split sum.split)
qed

text \<open>
  The theorem where \<open>locking\<close> fails with \<open>Permission denied\<close> at cursor 5:
  \<open>lock\<close> raises \<open>LockException\<close>, \<open>unlock\<close> falls back to \<open>UnlockFileEx\<close>,
  and both leave the cursor at 5.
\<close>

theorem cursor_restored_witness:
  "fst (lock 3 (FileLock_init 3) example_handle (LOCK_EX OR LOCK_NB) locked_elsewhere) =
     Inl (LockException ''Permission denied'' example_handle) \<and>
   cursor (snd (lock 3 (FileLock_init 3) example_handle (LOCK_EX OR LOCK_NB) locked_elsewhere)) = 5 \<and>
   cursor (snd (unlock (FileLock_init 3) example_handle locked_elsewhere)) = 5"
proof -
  have c: "cursor locked_elsewhere = 5"
    by (simp add: locked_elsewhere_def scripted_def)
  have l: "calls_of (lock 3 (FileLock_init 3) example_handle (LOCK_EX OR LOCK_NB)) locked_elsewhere =
     [(CallTell, None), (CallSeek 0, None),
      (CallLocking 0 3 LK_NBLCK (2 ^ 31 - 1), Some (IOError 13 ''Permission denied'')),
      (CallSeek 5, None)]"
    by (simp add: lock_def io_defs world_defs handler_defs lock_consts locked_elsewhere_def)
  have u: "calls_of (unlock (FileLock_init 3) example_handle) locked_elsewhere =
     [(CallTell, None), (CallSeek 0, None),
      (CallLocking 0 3 LK_UNLCK (2 ^ 31 - 1), Some (IOError 13 ''Permission denied'')),
      (CallGetOsfhandle 3, None),
      (CallUnlockFileEx (OsHandle 3) 0 (- 0x10000) (OVERLAPPED 0 0), None),
      (CallSeek 5, None)]"
    by (simp add: unlock_def io_defs world_defs handler_defs lock_consts locked_elsewhere_def)
  have r: "fst (lock 3 (FileLock_init 3) example_handle (LOCK_EX OR LOCK_NB) locked_elsewhere) =
     Inl (LockException ''Permission denied'' example_handle)"
    by (simp add: lock_def io_defs world_defs handler_defs lock_consts locked_elsewhere_def)
  show ?thesis
    using cursor_restored_unless_seek_back_fails
      [of locked_elsewhere 3 "FileLock_init 3" example_handle "LOCK_EX OR LOCK_NB"]
    by (simp add: c l u r)
qed

text \<open>
  Claim C3 as stated fails on the exit path where the restoring \<open>seek\<close> raises:
  the cursor was 5, \<open>seek(0)\<close> and \<open>locking\<close> succeed, \<open>seek(5)\<close> raises
  \<open>IOError\<close>; \<open>lock\<close> ends with \<open>LockException\<close> and the cursor is 0.
\<close>

theorem cursor_not_restored_counterexample:
  "cursor seek_fails_on_return = 5 \<and>
   fst (lock 3 (FileLock_init 3) example_handle LOCK_EX seek_fails_on_return) =
     Inl (LockException ''Bad file descriptor'' example_handle) \<and>
   cursor (snd (lock 3 (FileLock_init 3) example_handle LOCK_EX seek_fails_on_return)) = 0 \<and>
   calls_of (lock 3 (FileLock_init 3) example_handle LOCK_EX) seek_fails_on_return =
     [(CallTell, None), (CallSeek 0, None), (CallLocking 0 3 LK_LOCK (2 ^ 31 - 1), None),
      (CallSeek 5, Some (IOError 9 ''Bad file descriptor''))]"
  by (simp add: lock_def io_defs world_defs handler_defs lock_consts seek_fails_on_return_def)

subsection \<open>Unlocking\<close>



subsection \<open>The shared branch\<close>

text \<open>
  Claim C5. With the \<open>SH\<close> bit set, \<open>lock\<close> never calls \<open>tell\<close> or \<open>seek\<close>
  and leaves the cursor alone. An exception of \<open>_get_osfhandle\<close> goes to the caller as
  it is. When \<open>LockFileEx\<close> raises \<open>pywintypes.error\<close> with code
  \<open>ERROR_LOCK_VIOLATION\<close>, \<open>lock\<close> raises \<open>LockException\<close> with the message of
  that error and the handle; any other exception of \<open>LockFileEx\<close> goes to the caller
  unchanged; and when \<open>LockFileEx\<close> returns, so does \<open>lock\<close>.
\<close>

theorem lock_shared_failures:
  assumes "flags AND LOCK_SH \<noteq> 0"
  shows "cursor (snd (lock major self h flags w)) = cursor w
       \<and> (\<forall>c r. (c, r) \<in> set (calls_of (lock major self h flags) w)
             \<longrightarrow> c \<noteq> CallTell \<and> (\<forall>n. c \<noteq> CallSeek n))
       \<and> (\<forall>e. outcome PGetOsfhandle w = Some e \<longrightarrow> fst (lock major self h flags w) = Inl e)
       \<and> (outcome PGetOsfhandle w = None \<longrightarrow>
             (\<forall>fn msg. outcome PLockFileEx w = Some (pywin_error ERROR_LOCK_VIOLATION fn msg)
                \<longrightarrow> fst (lock major self h flags w) = Inl (LockException msg h))
           \<and> (\<forall>e. outcome PLockFileEx w = Some e
                \<longrightarrow> (\<forall>fn msg. e \<noteq> pywin_error ERROR_LOCK_VIOLATION fn msg)
                \<longrightarrow> fst (lock major self h flags w) = Inl e)
           \<and> (outcome PLockFileEx w = None \<longrightarrow> fst (lock major self h flags w) = Inr ()))"
  using assms unfolding lock_def calls_of_def io_defs
  by (auto simp: Let_def violation_def split: option.split exn.split)

text \<open>
  The theorem where another process holds the range.
\<close>

theorem lock_shared_failures_witness:
  "fst (lock 3 (FileLock_init 3) example_handle (LOCK_SH OR LOCK_NB) lock_violation) =
     Inl (LockException
       ''The process cannot access the file because another process has locked a portion of the file.''
       example_handle)
   \<and> cursor (snd (lock 3 (FileLock_init 3) example_handle (LOCK_SH OR LOCK_NB) lock_violation)) = 5"
proof -
  have f: "(LOCK_SH OR LOCK_NB) AND LOCK_SH \<noteq> 0" by (simp add: lock_consts)
  have o: "outcome PGetOsfhandle lock_violation = None"
    "outcome PLockFileEx lock_violation = Some (pywin_error ERROR_LOCK_VIOLATION ''LockFileEx''
       ''The process cannot access the file because another process has locked a portion of the file.'')"
    by (simp_all add: lock_violation_def scripted_def outcome_def outcome_at_def)
  have c: "cursor lock_violation = 5" by (simp add: lock_violation_def scripted_def)
  show ?thesis
    using lock_shared_failures [OF f, of 3 "FileLock_init 3" example_handle lock_violation]
    by (simp add: o c)
qed

subsection \<open>The exclusive branch\<close>

text \<open>
  What the exclusive branch does, under Python 3 (\<open>version_info.major\<close> is not 2; the
  module's annotations do not parse under Python 2) and without the \<open>SH\<close> bit: every
  \<open>locking\<close> call that \<open>lock\<close> makes is on the handle's descriptor, for \<open>2^31 - 1\<close>
  bytes, with \<open>LK_NBLCK\<close> when the \<open>NB\<close> bit is set and \<open>LK_LOCK\<close> otherwise, and it
  starts at \<open>lock_start\<close>, where the descriptor is then. When \<open>tell\<close> and \<open>seek\<close> do
  not raise, the calls are, in this order: \<open>tell\<close>, \<open>seek(0)\<close> if the cursor was not
  0, \<open>locking\<close>, and \<open>seek\<close> back to the saved position if it was not 0. On a handle
  with nothing read ahead the range starts at offset 0.
\<close>

lemma lock_exclusive_calls:
  assumes "major \<noteq> 2" and "flags AND LOCK_SH = 0"
  shows "(\<forall>c r. (c, r) \<in> set (calls_of (lock major (FileLock_init major) h flags) w) \<longrightarrow>
            (\<forall>pos fd m n. c = CallLocking pos fd m n \<longrightarrow>
               pos = lock_start w \<and> fd = fileno h
               \<and> m = (if flags AND LOCK_NB \<noteq> 0 then LK_NBLCK else LK_LOCK)
               \<and> n = 2 ^ 31 - 1))
       \<and> (pending w PTell = [] \<longrightarrow> pending w PSeek = [] \<longrightarrow>
            calls_of (lock major (FileLock_init major) h flags) w =
              [(CallTell, None)]
              @ (if cursor w \<noteq> 0 then [(CallSeek 0, None)] else [])
              @ [(CallLocking (lock_start w) (fileno h)
                    (if flags AND LOCK_NB \<noteq> 0 then LK_NBLCK else LK_LOCK) (2 ^ 31 - 1),
                  outcome PLocking w)]
              @ (if cursor w \<noteq> 0 then [(CallSeek (cursor w), None)] else []))
       \<and> (buffer_start w = cursor w \<and> os_offset w = cursor w \<longrightarrow> lock_start w = 0)"
proof -
  have a: "pos = lock_start w \<and> fd = fileno h
      \<and> m = (if flags AND LOCK_NB \<noteq> 0 then LK_NBLCK else LK_LOCK) \<and> n = 2 ^ 31 - 1"
    if "(c, r) \<in> set (calls_of (lock major (FileLock_init major) h flags) w)"
      and "c = CallLocking pos fd m n" for c r pos fd m n
    using that assms unfolding lock_def calls_of_def io_defs FileLock_init_def lock_start_def
    by (simp add: Let_def split: option.splits if_splits)
  have b: "calls_of (lock major (FileLock_init major) h flags) w =
              [(CallTell, None)]
              @ (if cursor w \<noteq> 0 then [(CallSeek 0, None)] else [])
              @ [(CallLocking (lock_start w) (fileno h)
                    (if flags AND LOCK_NB \<noteq> 0 then LK_NBLCK else LK_LOCK) (2 ^ 31 - 1),
                  outcome PLocking w)]
              @ (if cursor w \<noteq> 0 then [(CallSeek (cursor w), None)] else [])"
    if t: "pending w PTell = []" and s: "pending w PSeek = []"
    using assms unfolding lock_def calls_of_def io_defs FileLock_init_def lock_start_def
    by (simp add: Let_def never_fails [OF t] never_fails [OF s] split: option.split)
  have c: "lock_start w = 0" if "buffer_start w = cursor w \<and> os_offset w = cursor w"
    using that by (simp add: lock_start_def)
  show ?thesis
    using a b c by blast
qed

text \<open>
  Claim C6, run on the code. The handle has mode \<open>r+b\<close>, the file has 30 bytes and the
  caller has read 5 of them: \<open>tell()\<close> is 5 and the descriptor is at offset 30, behind
  the read-ahead. \<open>lock(handle, LOCK.EX)\<close> saves the position, calls \<open>seek(0)\<close>, which
  stays inside the buffer and leaves the descriptor alone, and then calls \<open>locking\<close>
  for \<open>2^31 - 1\<close> bytes with \<open>LK_LOCK\<close>: the locked range starts at offset 30 of the
  file, where the claim, and the source's own comment (\<open>make sure to lock from file
  start\<close>), have it start at offset 0.
\<close>

theorem lock_exclusive_not_from_file_start:
  "cursor read_ahead = 5 \<and> os_offset read_ahead = 30 \<and>
   calls_of (lock 3 (FileLock_init 3) example_handle LOCK_EX) read_ahead =
     [(CallTell, None), (CallSeek 0, None),
      (CallLocking 30 3 LK_LOCK (2 ^ 31 - 1), None), (CallSeek 5, None)]"
  by (simp add: lock_def io_defs world_defs handler_defs lock_consts)

subsection \<open>The \<open>UN\<close> flag\<close>

text \<open>
  Claim C10. \<open>LOCK.UN\<close> is 0, so it masks every flag set to 0, and
  \<open>lock(handle, LOCK.UN)\<close> is \<open>lock(handle, 0)\<close>: the exclusive branch with the
  blocking \<open>LK_LOCK\<close>. For no flag set does \<open>lock\<close> call an unlocking primitive
  (\<open>locking\<close> with \<open>LK_UNLCK\<close>, or \<open>UnlockFileEx\<close>); \<open>unlock\<close> does.
\<close>

theorem lock_un_does_not_unlock:
  "LOCK_UN = 0
   \<and> flags AND LOCK_UN = 0
   \<and> lock major self h LOCK_UN w = lock major self h 0 w
   \<and> (\<forall>c r. (c, r) \<in> set (calls_of (lock major self h LOCK_UN) w) \<longrightarrow>
          c = CallTell \<or> c = CallSeek 0 \<or> c = CallSeek (cursor w)
          \<or> c = CallLocking (lock_start w) (fileno h) LK_LOCK (lock_length self))
   \<and> (pending w PTell = [] \<longrightarrow> pending w PSeek = [] \<longrightarrow>
          (CallLocking (lock_start w) (fileno h) LK_LOCK (lock_length self), outcome PLocking w)
            \<in> set (calls_of (lock major self h LOCK_UN) w))
   \<and> (\<forall>c r. (c, r) \<in> set (calls_of (lock major self h flags) w) \<longrightarrow> \<not> is_unlock_call c)
   \<and> (pending w PTell = [] \<longrightarrow> pending w PSeek = [] \<longrightarrow>
          (CallLocking (lock_start w) (fileno h) LK_UNLCK (lock_length self), outcome PLocking w)
            \<in> set (calls_of (unlock self h) w))"
proof (intro conjI allI impI)
  show "LOCK_UN = 0" by (simp add: lock_consts)
  show "flags AND LOCK_UN = 0" by (simp add: lock_consts)
  show "lock major self h LOCK_UN w = lock major self h 0 w" by (simp add: lock_consts)
next
  fix c r
  assume "(c, r) \<in> set (calls_of (lock major self h LOCK_UN) w)"
  then show "c = CallTell \<or> c = CallSeek 0 \<or> c = CallSeek (cursor w)
          \<or> c = CallLocking (lock_start w) (fileno h) LK_LOCK (lock_length self)"
    unfolding lock_def calls_of_def io_defs lock_start_def
    by (auto simp add: Let_def lock_consts split: option.splits if_splits)
next
  fix c r
  assume "(c, r) \<in> set (calls_of (lock major self h flags) w)"
  then show "\<not> is_unlock_call c"
    unfolding lock_def calls_of_def io_defs
    by (auto simp add: Let_def lock_consts is_unlock_call_def split: option.splits if_splits)
next
  assume t: "pending w PTell = []" and s: "pending w PSeek = []"
  note ok = never_fails [OF t] never_fails [OF s]
  show "(CallLocking (lock_start w) (fileno h) LK_LOCK (lock_length self), outcome PLocking w)
            \<in> set (calls_of (lock major self h LOCK_UN) w)"
    unfolding lock_def calls_of_def io_defs lock_start_def
    by (simp add: Let_def lock_consts ok split: option.split)
next
  assume t: "pending w PTell = []" and s: "pending w PSeek = []"
  note ok = never_fails [OF t] never_fails [OF s]
  show "(CallLocking (lock_start w) (fileno h) LK_UNLCK (lock_length self), outcome PLocking w)
            \<in> set (calls_of (unlock self h) w)"
    unfolding unlock_def calls_of_def io_defs except_IOError_unlock_run lock_start_def
    by (simp add: Let_def lock_consts ok split: option.split sum.split)
qed

text \<open>
  The theorem for \<open>lock(handle, LOCK.UN)\<close> at cursor 5.
\<close>

theorem lock_un_does_not_unlock_witness:
  "calls_of (lock 3 (FileLock_init 3) example_handle LOCK_UN) (quiet 5) =
     [(CallTell, None), (CallSeek 0, None),
      (CallLocking 0 3 LK_LOCK (2 ^ 31 - 1), None), (CallSeek 5, None)]
   \<and> \<not> is_unlock_call (CallLocking 0 3 LK_LOCK (2 ^ 31 - 1))
   \<and> is_unlock_call (CallLocking 0 3 LK_UNLCK (2 ^ 31 - 1))"
proof -
  have e: "calls_of (lock 3 (FileLock_init 3) example_handle LOCK_UN) (quiet 5) =
     [(CallTell, None), (CallSeek 0, None),
      (CallLocking 0 3 LK_LOCK (2 ^ 31 - 1), None), (CallSeek 5, None)]"
    by (simp add: lock_def io_defs world_defs handler_defs lock_consts)
  have "\<forall>c r. (c, r) \<in> set (calls_of (lock 3 (FileLock_init 3) example_handle LOCK_UN) (quiet 5))
          \<longrightarrow> \<not> is_unlock_call c"
    using lock_un_does_not_unlock [of LOCK_UN 3 "FileLock_init 3" example_handle "quiet 5"]
    by blast
  then have "\<not> is_unlock_call (CallLocking 0 3 LK_LOCK (2 ^ 31 - 1))"
    by (simp add: e)
  moreover have "is_unlock_call (CallLocking 0 3 LK_UNLCK (2 ^ 31 - 1))"
    by (simp add: is_unlock_call_def)
  ultimately show ?thesis using e by simp
qed

section \<open>Properties of the singleton mechanisms\<close>

subsection \<open>One call, and a sequence of calls\<close>

lemmas prog_defs = return_io_def raise_io_def bind_io_def

lemma singleton_present:
  "INSTANCES st c = Some x \<Longrightarrow> singleton init c args st = (Inr x, st)"
  by (simp add: singleton_def lookup_instance_def prog_defs)

lemma singleton_absent:
  "INSTANCES st c = None \<Longrightarrow> init c args = None \<Longrightarrow>
   singleton init c args st =
     (Inr (Obj (length (heap st)) c args),
      st\<lparr>heap := heap st @ [Obj (length (heap st)) c args],
         INSTANCES := (INSTANCES st)(c \<mapsto> Obj (length (heap st)) c args)\<rparr>)"
  by (simp add: singleton_def lookup_instance_def store_instance_def construct_def prog_defs)

lemma singleton_raises:
  "INSTANCES st c = None \<Longrightarrow> init c args = Some e \<Longrightarrow> singleton init c args st = (Inl e, st)"
  by (simp add: singleton_def construct_def prog_defs)

lemma singleton_cases:
  obtains (present) x where "INSTANCES st c = Some x" "singleton init c args st = (Inr x, st)"
  | (absent) "INSTANCES st c = None" "init c args = None"
      "singleton init c args st =
         (Inr (Obj (length (heap st)) c args),
          st\<lparr>heap := heap st @ [Obj (length (heap st)) c args],
             INSTANCES := (INSTANCES st)(c \<mapsto> Obj (length (heap st)) c args)\<rparr>)"
  | (raises) e where "INSTANCES st c = None" "init c args = Some e"
      "singleton init c args st = (Inl e, st)"
proof (cases "INSTANCES st c")
  case None
  then show ?thesis
    by (cases "init c args") (auto intro: absent raises simp: singleton_absent singleton_raises)
next
  case (Some x)
  then show ?thesis by (auto intro: present simp: singleton_present)
qed

lemma singleton_returns:
  "singleton init c args st = (Inr x, st') \<Longrightarrow> INSTANCES st' c = Some x"
  by (cases rule: singleton_cases [of st c init args]) auto

lemma singleton_keeps:
  "INSTANCES st c = Some x \<Longrightarrow> INSTANCES (snd (singleton init d args st)) c = Some x"
  by (cases rule: singleton_cases [of st d init args]) auto

lemma singleton_one_each:
  "one_each INSTANCES st \<Longrightarrow> one_each INSTANCES (snd (singleton init d args st))"
  by (cases rule: singleton_cases [of st d init args])
     (auto simp: one_each_def instances_of_def)

lemma lookup_attr_head: "lookup_attr attrs (c # cs) = None \<Longrightarrow> attrs c = None"
  by (simp split: option.splits)

lemma lookup_attr_own: "attrs c = Some x \<Longrightarrow> lookup_attr attrs (c # cs) = Some x"
  by simp

lemma meta_present:
  "lookup_attr (instance_attr st) (mro ancestors c) = Some x \<Longrightarrow>
   MetaSingleton_call ancestors init c args st = (Inr x, st)"
  by (simp add: MetaSingleton_call_def getattr_instance_def prog_defs)

lemma meta_absent:
  "lookup_attr (instance_attr st) (mro ancestors c) = None \<Longrightarrow> init c args = None \<Longrightarrow>
   MetaSingleton_call ancestors init c args st =
     (Inr (Obj (length (heap st)) c args),
      st\<lparr>heap := heap st @ [Obj (length (heap st)) c args],
         instance_attr := (instance_attr st)(c \<mapsto> Obj (length (heap st)) c args)\<rparr>)"
  by (simp add: MetaSingleton_call_def getattr_instance_def setattr_instance_def construct_def
      prog_defs mro_def)

lemma meta_raises:
  "lookup_attr (instance_attr st) (mro ancestors c) = None \<Longrightarrow> init c args = Some e \<Longrightarrow>
   MetaSingleton_call ancestors init c args st = (Inl e, st)"
  by (simp add: MetaSingleton_call_def construct_def prog_defs)

lemma meta_cases:
  obtains (present) x where "lookup_attr (instance_attr st) (mro ancestors c) = Some x"
      "MetaSingleton_call ancestors init c args st = (Inr x, st)"
  | (absent) "instance_attr st c = None" "init c args = None"
      "MetaSingleton_call ancestors init c args st =
         (Inr (Obj (length (heap st)) c args),
          st\<lparr>heap := heap st @ [Obj (length (heap st)) c args],
             instance_attr := (instance_attr st)(c \<mapsto> Obj (length (heap st)) c args)\<rparr>)"
  | (raises) e where "MetaSingleton_call ancestors init c args st = (Inl e, st)"
proof (cases "lookup_attr (instance_attr st) (mro ancestors c)")
  case None
  then have "instance_attr st c = None"
    unfolding mro_def by (rule lookup_attr_head)
  with None show ?thesis
    by (cases "init c args") (auto intro: absent raises simp: meta_absent meta_raises)
next
  case (Some x)
  then show ?thesis by (auto intro: present simp: meta_present)
qed

lemma meta_returns:
  "ancestors c = [] \<Longrightarrow> MetaSingleton_call ancestors init c args st = (Inr x, st') \<Longrightarrow>
   instance_attr st' c = Some x"
  by (cases rule: meta_cases [of st ancestors c init args])
     (auto simp: mro_def split: option.splits)

lemma meta_keeps:
  "instance_attr st c = Some x \<Longrightarrow>
   instance_attr (snd (MetaSingleton_call ancestors init d args st)) c = Some x"
  by (cases rule: meta_cases [of st ancestors d init args]) auto

lemma meta_one_each:
  "one_each instance_attr st \<Longrightarrow>
   one_each instance_attr (snd (MetaSingleton_call ancestors init d args st))"
  by (cases rule: meta_cases [of st ancestors d init args])
     (auto simp: one_each_def instances_of_def)

lemma run_calls_invariant:
  assumes step: "\<And>c args st. I st \<Longrightarrow> I (snd (f c args st))"
  shows "I st \<Longrightarrow> I (snd (run_calls f calls st))"
proof (induction calls arbitrary: st)
  case Nil
  then show ?case by simp
next
  case (Cons call calls)
  obtain c args where call: "call = (c, args)" by (cases call)
  have "I (snd (f c args st))" using Cons.prems by (rule step)
  then have "I (snd (run_calls f calls (snd (f c args st))))" by (rule Cons.IH)
  then show ?case by (auto simp: call split: prod.splits)
qed

lemma run_calls_stored:
  assumes ret: "\<And>args st y st'. f c args st = (Inr y, st') \<Longrightarrow> table st' c = Some y"
    and keep: "\<And>d args st y. table st c = Some y \<Longrightarrow> table (snd (f d args st)) c = Some y"
  shows "table st c = Some x \<Longrightarrow> (c, Inr y) \<in> set (fst (run_calls f calls st)) \<Longrightarrow> y = x"
proof (induction calls arbitrary: st)
  case Nil
  then show ?case by simp
next
  case (Cons call calls)
  obtain d args where call: "call = (d, args)" by (cases call)
  obtain r st' where step: "f d args st = (r, st')" by (cases "f d args st")
  have kept: "table st' c = Some x"
    using keep [OF Cons.prems(1), of d args] step by simp
  from Cons.prems(2) call step
  consider "d = c" "r = Inr y" | "(c, Inr y) \<in> set (fst (run_calls f calls st'))"
    by (auto split: prod.splits)
  then show ?case
  proof cases
    case 1
    then have "table st' c = Some y" using ret step by simp
    with kept show ?thesis by simp
  next
    case 2
    with kept show ?thesis by (rule Cons.IH)
  qed
qed

lemma run_calls_same:
  assumes ret: "\<And>args st y st'. f c args st = (Inr y, st') \<Longrightarrow> table st' c = Some y"
    and keep: "\<And>d args st y. table st c = Some y \<Longrightarrow> table (snd (f d args st)) c = Some y"
  shows "(c, Inr x) \<in> set (fst (run_calls f calls st)) \<Longrightarrow>
         (c, Inr y) \<in> set (fst (run_calls f calls st)) \<Longrightarrow> x = y"
proof (induction calls arbitrary: st)
  case Nil
  then show ?case by simp
next
  case (Cons call calls)
  obtain d args where call: "call = (d, args)" by (cases call)
  obtain r st' where step: "f d args st = (r, st')" by (cases "f d args st")
  have later: "y' = x'"
    if a: "table s c = Some x'" and b: "(c, Inr y') \<in> set (fst (run_calls f calls s))"
    for s x' y'
  proof (rule run_calls_stored [where f = f and table = table and c = c and st = s
        and calls = calls])
    show "table st' c = Some y" if "f c args st = (Inr y, st')" for args st y st'
      using that by (rule ret)
    show "table (snd (f d args st)) c = Some y" if "table st c = Some y" for d args st y
      using that by (rule keep)
    show "table s c = Some x'" by (rule a)
    show "(c, Inr y') \<in> set (fst (run_calls f calls s))" by (rule b)
  qed
  from Cons.prems(1) call step
  consider (head) "d = c" "r = Inr x" | (tail) "(c, Inr x) \<in> set (fst (run_calls f calls st'))"
    by (auto split: prod.splits)
  then show ?case
  proof cases
    case head
    then have stored: "table st' c = Some x" using ret step by simp
    from Cons.prems(2) call step head
    consider "y = x" | "(c, Inr y) \<in> set (fst (run_calls f calls st'))"
      by (auto split: prod.splits)
    then show ?thesis
    proof cases
      case 1 then show ?thesis by simp
    next
      case 2 with stored have "y = x" by (rule later) then show ?thesis by simp
    qed
  next
    case tail
    from Cons.prems(2) call step
    consider (head2) "d = c" "r = Inr y" | (tail2) "(c, Inr y) \<in> set (fst (run_calls f calls st'))"
      by (auto split: prod.splits)
    then show ?thesis
    proof cases
      case head2
      then have "table st' c = Some y" using ret step by simp
      then show ?thesis using tail by (rule later)
    next
      case tail2
      with tail show ?thesis by (rule Cons.IH)
    qed
  qed
qed

lemma one_each_fresh: "one_each table fresh" if "table fresh = Map.empty"
  using that by (simp add: one_each_def instances_of_def fresh_def)

lemma one_each_bound: "one_each table st \<Longrightarrow> length (instances_of c st) \<le> 1"
  by (simp add: one_each_def split: option.splits)

lemmas singleton_defs =
  singleton_def MetaSingleton_call_def construct_def store_instance_def lookup_instance_def
  setattr_instance_def getattr_instance_def mro_def fresh_def return_io_def raise_io_def
  bind_io_def example_ancestors_def no_raise_def






subsection \<open>The singleton restriction\<close>

text \<open>
  Claim C7, as the code has it. For the decorator: a call on a class whose table entry
  exists returns that entry and changes nothing; a call on a class without an entry,
  whose constructor returns, constructs one object, stores it and returns it; in every
  sequence of calls from the start of the process all calls on one class that return,
  return the same instance, and at most one instance of the class is ever constructed.
  For the metaclass: a call on a class that carries its own \<open>_instance\<close> returns it and
  changes nothing; a call on a class for which \<open>hasattr\<close> finds no \<open>_instance\<close>, whose
  constructor returns, constructs one object, stores it and returns it; at most one
  instance of any class is ever constructed; and all calls on one class return the same
  instance when the class has no ancestor that could carry \<open>_instance\<close>.
\<close>

theorem singleton_restriction:
  "(\<forall>x. INSTANCES st c = Some x \<longrightarrow> singleton init c args st = (Inr x, st))
   \<and> (INSTANCES st c = None \<longrightarrow> init c args = None \<longrightarrow>
        singleton init c args st =
          (Inr (Obj (length (heap st)) c args),
           st\<lparr>heap := heap st @ [Obj (length (heap st)) c args],
              INSTANCES := (INSTANCES st)(c \<mapsto> Obj (length (heap st)) c args)\<rparr>))
   \<and> (\<forall>x y. (c, Inr x) \<in> set (fst (run_calls (singleton init) calls fresh))
          \<longrightarrow> (c, Inr y) \<in> set (fst (run_calls (singleton init) calls fresh))
          \<longrightarrow> x = y)
   \<and> length (instances_of c (snd (run_calls (singleton init) calls fresh))) \<le> 1
   \<and> (\<forall>x. instance_attr st c = Some x \<longrightarrow>
          MetaSingleton_call ancestors init c args st = (Inr x, st))
   \<and> (lookup_attr (instance_attr st) (mro ancestors c) = None \<longrightarrow> init c args = None \<longrightarrow>
        MetaSingleton_call ancestors init c args st =
          (Inr (Obj (length (heap st)) c args),
           st\<lparr>heap := heap st @ [Obj (length (heap st)) c args],
              instance_attr := (instance_attr st)(c \<mapsto> Obj (length (heap st)) c args)\<rparr>))
   \<and> (ancestors c = [] \<longrightarrow>
        (\<forall>x y. (c, Inr x) \<in> set (fst (run_calls (MetaSingleton_call ancestors init) calls fresh))
          \<longrightarrow> (c, Inr y) \<in> set (fst (run_calls (MetaSingleton_call ancestors init) calls fresh))
          \<longrightarrow> x = y))
   \<and> length (instances_of c (snd (run_calls (MetaSingleton_call ancestors init) calls fresh))) \<le> 1"
proof -
  have d_same: "x = y"
    if "(c, Inr x) \<in> set (fst (run_calls (singleton init) calls fresh))"
      and "(c, Inr y) \<in> set (fst (run_calls (singleton init) calls fresh))" for x y
    using that
    by (rule run_calls_same [where f = "singleton init" and table = INSTANCES, rotated 2])
       (auto intro: singleton_returns singleton_keeps)
  have "one_each INSTANCES (snd (run_calls (singleton init) calls (fresh :: 'a runtime)))"
    by (rule run_calls_invariant [where I = "one_each INSTANCES"])
       (erule singleton_one_each, rule one_each_fresh, simp add: fresh_def)
  then have d_bound: "length (instances_of c (snd (run_calls (singleton init) calls fresh))) \<le> 1"
    by (rule one_each_bound)
  have m_same: "x = y"
    if "ancestors c = []"
      and "(c, Inr x) \<in> set (fst (run_calls (MetaSingleton_call ancestors init) calls fresh))"
      and "(c, Inr y) \<in> set (fst (run_calls (MetaSingleton_call ancestors init) calls fresh))"
    for x y
    using that(2,3)
    by (rule run_calls_same [where f = "MetaSingleton_call ancestors init"
          and table = instance_attr, rotated 2])
       (auto intro: meta_returns [where ancestors = ancestors and c = c, OF that(1)] meta_keeps)
  have "one_each instance_attr
          (snd (run_calls (MetaSingleton_call ancestors init) calls (fresh :: 'a runtime)))"
    by (rule run_calls_invariant [where I = "one_each instance_attr"])
       (erule meta_one_each, rule one_each_fresh, simp add: fresh_def)
  then have m_bound:
    "length (instances_of c (snd (run_calls (MetaSingleton_call ancestors init) calls fresh))) \<le> 1"
    by (rule one_each_bound)
  have m_own: "MetaSingleton_call ancestors init c args st = (Inr x, st)"
    if "instance_attr st c = Some x" for x
    by (rule meta_present) (simp add: mro_def that)
  show ?thesis
    using d_same d_bound m_same m_bound m_own
    by (auto simp: singleton_present singleton_absent meta_absent)
qed

text \<open>
  The theorem on the calls \<open>A(), A1(), A()\<close> through the decorator and
  \<open>A(), B(), A()\<close> through the metaclass.
\<close>

theorem singleton_restriction_witness:
  "fst (run_calls (singleton no_raise) [(''A'', ()), (''A1'', ()), (''A'', ())] fresh) =
     [(''A'', Inr (Obj 0 ''A'' ())), (''A1'', Inr (Obj 1 ''A1'' ())), (''A'', Inr (Obj 0 ''A'' ()))]
   \<and> length (instances_of ''A''
        (snd (run_calls (singleton no_raise) [(''A'', ()), (''A1'', ()), (''A'', ())] fresh))) \<le> 1
   \<and> fst (run_calls (MetaSingleton_call example_ancestors no_raise)
        [(''A'', ()), (''B'', ()), (''A'', ())] fresh) =
     [(''A'', Inr (Obj 0 ''A'' ())), (''B'', Inr (Obj 1 ''B'' ())), (''A'', Inr (Obj 0 ''A'' ()))]
   \<and> example_ancestors ''A'' = []"
proof -
  have r: "fst (run_calls (singleton no_raise) [(''A'', ()), (''A1'', ()), (''A'', ())] fresh) =
     [(''A'', Inr (Obj 0 ''A'' ())), (''A1'', Inr (Obj 1 ''A1'' ())), (''A'', Inr (Obj 0 ''A'' ()))]"
    by (simp add: singleton_defs)
  have m: "fst (run_calls (MetaSingleton_call example_ancestors no_raise)
        [(''A'', ()), (''B'', ()), (''A'', ())] fresh) =
     [(''A'', Inr (Obj 0 ''A'' ())), (''B'', Inr (Obj 1 ''B'' ())), (''A'', Inr (Obj 0 ''A'' ()))]"
    by (simp add: singleton_defs)
  have a: "example_ancestors ''A'' = []"
    by (simp add: example_ancestors_def)
  have b: "length (instances_of ''A''
        (snd (run_calls (singleton no_raise) [(''A'', ()), (''A1'', ()), (''A'', ())] fresh))) \<le> 1"
    using singleton_restriction [of fresh "''A''" no_raise "()"
        "[(''A'', ()), (''A1'', ()), (''A'', ())]" example_ancestors]
    by blast
  show ?thesis
    by (intro conjI r b m a)
qed

text \<open>
  Claim C7 as stated fails for the metaclass, because \<open>hasattr(cls, "_instance")\<close>
  also finds the attribute of a base class. With \<open>class B(X, C)\<close>, the calls
  \<open>C(), B(), X(), B()\<close> give \<open>B()\<close> first the instance of \<open>C\<close> and then the instance
  of \<open>X\<close>: two calls on one class return different instances. With \<open>class A1(A)\<close>,
  after \<open>A()\<close> the first call \<open>A1()\<close> constructs nothing and returns the instance of
  \<open>A\<close>.
\<close>

theorem singleton_restriction_counterexample:
  "fst (run_calls (MetaSingleton_call example_ancestors no_raise)
        [(''C'', ()), (''B'', ()), (''X'', ()), (''B'', ())] fresh) =
     [(''C'', Inr (Obj 0 ''C'' ())), (''B'', Inr (Obj 0 ''C'' ())),
      (''X'', Inr (Obj 1 ''X'' ())), (''B'', Inr (Obj 1 ''X'' ()))]
   \<and> Obj 0 ''C'' () \<noteq> Obj 1 ''X'' ()
   \<and> fst (run_calls (MetaSingleton_call example_ancestors no_raise)
        [(''A'', ()), (''A1'', ())] fresh) =
     [(''A'', Inr (Obj 0 ''A'' ())), (''A1'', Inr (Obj 0 ''A'' ()))]"
  by (simp add: singleton_defs)

subsection \<open>Calls from several threads\<close>




section \<open>Properties of the encryption wrapper\<close>





end
